theory Spec2Isabelle
  imports Complex_Main
begin

section \<open>The split-surface component of SplitSurface.js\<close>

text \<open>
  The component keeps a canvas size and a list of cutting lines in its state and computes,
  in \<open>splitSurface\<close>, the pieces of the canvas left after every line has been removed as
  a thin quadrilateral. The boolean difference itself is done by the clipper-lib package,
  which is not part of the repository: it enters the model as a parameter.

  JavaScript numbers are modelled as the reals, and \<open>Math.sqrt\<close> is \<open>sqrt\<close>. One operation
  is modelled with its rounding: the product that \<open>scaleUpPath\<close> hands to \<open>Math.round\<close>
  is the double nearest to the exact product, since that rounding can decide which lattice
  point is chosen. All other arithmetic is exact, and the overflow and underflow of
  doubles are outside the model. The lattice coordinates that \<open>Math.round\<close> returns are
  integers.
\<close>

subsection \<open>Data\<close>

text \<open>A canvas point, the object \<open>{x, y}\<close>.\<close>

record point =
  x :: real
  y :: real

text \<open>A lattice point of the clipping library, the object \<open>{X, Y}\<close>.\<close>

record IntPoint =
  X :: int
  Y :: int

type_synonym polygon = "point list"

type_synonym path = "IntPoint list"

text \<open>
  A cutting line, the object \<open>{id, points, color}\<close>. Every place of the source that builds
  one gives \<open>points\<close> exactly two elements, and \<open>splitSurface\<close> reads \<open>points[0]\<close> and
  \<open>points[1]\<close> only, so the array is a pair here. The colour is optional.
\<close>

record polyline =
  line_id :: string
  points :: "point \<times> point"
  color :: "string option"

text \<open>The state of the component that \<open>useState\<close> holds.\<close>

record component =
  width :: real
  height :: real
  polylines :: "polyline list"
  selectedAlgorithm :: string
  parameters :: "(string \<times> string) list"
  selectedColorSet :: string

subsection \<open>The clipping library, as far as the component uses it\<close>

datatype PolyType = ptSubject | ptClip

text \<open>
  A \<open>Clipper\<close> object is the sequence of closed paths added to it so far, each with its
  role. \<open>AddPath\<close> appends one.
\<close>

type_synonym clipper = "(path \<times> PolyType) list"

definition AddPath :: "path \<Rightarrow> PolyType \<Rightarrow> clipper \<Rightarrow> clipper" where
  "AddPath pg pt c = c @ [(pg, pt)]"

text \<open>
  \<open>Execute(ctDifference, solution, pftNonZero, pftNonZero)\<close> is the only call the component
  makes, so an engine is a function from the paths added to the success flag and the
  solution paths.
\<close>

type_synonym engine = "clipper \<Rightarrow> bool \<times> path list"

subsection \<open>What a call of splitSurface leaves behind\<close>

text \<open>The calls of \<open>console.error\<close> and \<open>console.log\<close>, in order, and the value returned.\<close>

datatype console = console_error string | console_log string "polygon list"

record split_result =
  logged :: "console list"
  returned :: "polygon list"

subsection \<open>The fixed-point mapper\<close>

text \<open>
  \<open>Math.round\<close> returns the integer closest to its argument and, of two equally close
  integers, the one nearer to plus infinity.
\<close>

definition Math_round :: "real \<Rightarrow> int" where
  "Math_round v = \<lfloor>v + 1 / 2\<rfloor>"

text \<open>
  The product \<open>point.x * scale\<close> of two doubles is the double nearest to the exact product,
  a tie going to the double with the even significand. A double other than zero is an
  integer of at most 53 bits times a power of two; for a number \<open>v\<close> with
  \<open>2^e \<le> |v| < 2^(e+1)\<close> the doubles around it are the multiples of \<open>2^(e-52)\<close>. The
  range of the exponent is not bounded here.
\<close>

definition roundTiesToEven :: "real \<Rightarrow> int" where
  "roundTiesToEven a =
     (let f = \<lfloor>a\<rfloor>; d = a - of_int f
      in if d < 1 / 2 then f
         else if 1 / 2 < d then f + 1
         else if even f then f else f + 1)"

definition binade :: "real \<Rightarrow> int" where
  "binade v = \<lfloor>log 2 \<bar>v\<bar>\<rfloor>"

definition roundToDouble :: "real \<Rightarrow> real" where
  "roundToDouble v =
     (if v = 0 then 0
      else let u = 2 powr (of_int (binade v) - 52)
           in of_int (roundTiesToEven (v / u)) * u)"

definition scaleUpPath :: "polygon \<Rightarrow> real \<Rightarrow> path" where
  "scaleUpPath pth sc =
     map (\<lambda>p. \<lparr>X = Math_round (roundToDouble (x p * sc)),
               Y = Math_round (roundToDouble (y p * sc))\<rparr>) pth"

definition scaleDownPath :: "path \<Rightarrow> real \<Rightarrow> polygon" where
  "scaleDownPath pth sc =
     map (\<lambda>p. \<lparr>x = real_of_int (X p) / sc, y = real_of_int (Y p) / sc\<rparr>) pth"

subsection \<open>The orchestrator\<close>

text \<open>The scaling factor, \<open>const scale = 100\<close>.\<close>

definition scale :: real where
  "scale = 100"

text \<open>The thickness of the splitting line, \<open>const lineWidth = 1\<close>.\<close>

definition lineWidth :: real where
  "lineWidth = 1"

text \<open>The canvas rectangle, written twice in the source with the same four corners.\<close>

definition mainPolygon :: "component \<Rightarrow> polygon" where
  "mainPolygon s =
     [\<lparr>x = 0, y = 0\<rparr>, \<lparr>x = width s, y = 0\<rparr>,
      \<lparr>x = width s, y = height s\<rparr>, \<lparr>x = 0, y = height s\<rparr>]"

text \<open>
  The body of the \<open>forEach\<close> callback up to the scaling: the thin quadrilateral of one
  line, or nothing when the callback returns early on a line of length zero.
\<close>

definition clipPath :: "polyline \<Rightarrow> polygon option" where
  "clipPath line =
     (let p0 = fst (points line); p1 = snd (points line);
          dx = x p1 - x p0;
          dy = y p1 - y p0;
          len = sqrt (dx * dx + dy * dy);
          offset = (lineWidth / 2) * scale
      in if len = 0 then None
         else
           let normX = dy / len; normY = - dx / len
           in Some
             [\<lparr>x = x p0 + normX * (offset / scale), y = y p0 + normY * (offset / scale)\<rparr>,
              \<lparr>x = x p1 + normX * (offset / scale), y = y p1 + normY * (offset / scale)\<rparr>,
              \<lparr>x = x p1 - normX * (offset / scale), y = y p1 - normY * (offset / scale)\<rparr>,
              \<lparr>x = x p0 - normX * (offset / scale), y = y p0 - normY * (offset / scale)\<rparr>])"

text \<open>The \<open>forEach\<close> over the lines: each surviving quadrilateral is scaled and added.\<close>

fun addClips :: "polyline list \<Rightarrow> clipper \<Rightarrow> clipper" where
  "addClips [] c = c"
| "addClips (line # rest) c =
     addClips rest
       (case clipPath line of
          None \<Rightarrow> c
        | Some pth \<Rightarrow> AddPath (scaleUpPath pth scale) ptClip c)"

text \<open>
  The \<open>Clipper\<close> object as it stands when \<open>Execute\<close> is called: the scaled canvas as the
  subject, then the scaled quadrilateral of every line that has one, in the order of the
  lines.
\<close>

definition clipperAtExecute :: "component \<Rightarrow> clipper" where
  "clipperAtExecute s =
     (let subj = scaleUpPath (mainPolygon s) scale;
          clipper0 = AddPath subj ptSubject []
      in addClips (polylines s) clipper0)"

definition splitSurface :: "engine \<Rightarrow> component \<Rightarrow> split_result" where
  "splitSurface Execute s =
     (if length (polylines s) = 0
      then \<lparr>logged = [], returned = [mainPolygon s]\<rparr>
      else
        let (succeeded, solutionPaths) = Execute (clipperAtExecute s)
        in if \<not> succeeded
           then \<lparr>logged = [console_error ''Failed to split the surface with the given polylines.''],
                 returned = []\<rparr>
           else
             let polygons = map (\<lambda>pth. scaleDownPath pth scale)
                              (filter (\<lambda>pth. length pth > 0) solutionPaths)
             in \<lparr>logged = [console_log ''SubSurfaces:'' polygons], returned = polygons\<rparr>)"

subsection \<open>Notions of the specification\<close>

text \<open>
  The two rounding rules the specification names, each following its words: to the nearest
  integer, a tie going away from zero, or to the even neighbour.
\<close>

definition round_half_away_from_zero :: "real \<Rightarrow> int" where
  "round_half_away_from_zero v = (if 0 \<le> v then \<lfloor>v + 1 / 2\<rfloor> else - \<lfloor>- v + 1 / 2\<rfloor>)"

definition round_half_to_even :: "real \<Rightarrow> int" where
  "round_half_to_even v =
     (let f = \<lfloor>v\<rfloor>; d = v - of_int f
      in if d < 1 / 2 then f
         else if 1 / 2 < d then f + 1
         else if even f then f else f + 1)"

definition toLattice_half_away :: "polygon \<Rightarrow> real \<Rightarrow> path" where
  "toLattice_half_away pth sc =
     map (\<lambda>p. \<lparr>X = round_half_away_from_zero (x p * sc),
               Y = round_half_away_from_zero (y p * sc)\<rparr>) pth"

definition toLattice_half_even :: "polygon \<Rightarrow> real \<Rightarrow> path" where
  "toLattice_half_even pth sc =
     map (\<lambda>p. \<lparr>X = round_half_to_even (x p * sc), Y = round_half_to_even (y p * sc)\<rparr>) pth"

text \<open>
  The signed area of a closed ring by the shoelace formula: positive for one winding,
  negative for the other.
\<close>

definition edges :: "polygon \<Rightarrow> (point \<times> point) list" where
  "edges ps = zip ps (rotate1 ps)"

definition signedArea :: "polygon \<Rightarrow> real" where
  "signedArea ps = (\<Sum>(a, b) \<leftarrow> edges ps. x a * y b - x b * y a) / 2"

text \<open>A point lies on the closed segment from \<open>a\<close> to \<open>b\<close>.\<close>

definition on_segment :: "point \<Rightarrow> point \<Rightarrow> point \<Rightarrow> bool" where
  "on_segment a b p \<longleftrightarrow>
     (\<exists>t. 0 \<le> t \<and> t \<le> 1 \<and> x p = x a + t * (x b - x a) \<and> y p = y a + t * (y b - y a))"

text \<open>
  A ring is simple when its corners are distinct and two of its edges share a point only
  when they follow each other, and then only the corner between them.
\<close>

definition simple_polygon :: "polygon \<Rightarrow> bool" where
  "simple_polygon ps \<longleftrightarrow>
     3 \<le> length ps \<and> distinct ps \<and>
     (\<forall>i j p. i < j \<and> j < length ps \<and>
        on_segment (ps ! i) (ps ! (Suc i mod length ps)) p \<and>
        on_segment (ps ! j) (ps ! (Suc j mod length ps)) p \<longrightarrow>
        (j = Suc i \<and> p = ps ! j) \<or> (i = 0 \<and> Suc j = length ps \<and> p = ps ! 0))"


text \<open>
  A rectangle: the corners \<open>a\<close>, \<open>a + u\<close>, \<open>a + u + v\<close> and \<open>a + v\<close>, in this order, for
  two directions \<open>u\<close> and \<open>v\<close> that are perpendicular and not zero.
\<close>

definition is_rectangle ::
    "point \<Rightarrow> point \<Rightarrow> point \<Rightarrow> point \<Rightarrow> real \<Rightarrow> real \<Rightarrow> real \<Rightarrow> real \<Rightarrow> bool" where
  "is_rectangle a b c d ux uy vx vy \<longleftrightarrow>
     x b = x a + (1 * ux + 0 * vx) \<and> y b = y a + (1 * uy + 0 * vy) \<and>
     x c = x a + (1 * ux + 1 * vx) \<and> y c = y a + (1 * uy + 1 * vy) \<and>
     x d = x a + (0 * ux + 1 * vx) \<and> y d = y a + (0 * uy + 1 * vy) \<and>
     ux * vx + uy * vy = 0 \<and> 0 < ux * ux + uy * uy \<and> 0 < vx * vx + vy * vy"


subsection \<open>Concrete inputs\<close>

text \<open>
  An engine that reports failure, one that returns the subject paths untouched, and one
  that answers with the two halves of the 100 by 100 canvas left by a horizontal strip of
  width 1 through its middle.
\<close>

definition engine_failing :: engine where
  "engine_failing c = (False, [])"

definition engine_keep_subject :: engine where
  "engine_keep_subject c = (True, map fst (filter (\<lambda>(pg, pt). pt = ptSubject) c))"


definition cutLine :: "real \<Rightarrow> real \<Rightarrow> real \<Rightarrow> real \<Rightarrow> polyline" where
  "cutLine a b c d = \<lparr>line_id = [], points = (\<lparr>x = a, y = b\<rparr>, \<lparr>x = c, y = d\<rparr>), color = None\<rparr>"

definition canvas :: "real \<Rightarrow> real \<Rightarrow> polyline list \<Rightarrow> component" where
  "canvas w h cuts =
     \<lparr>width = w, height = h, polylines = cuts,
      selectedAlgorithm = [], parameters = [], selectedColorSet = ''Sunset''\<rparr>"

section \<open>The empty cut list\<close>

text \<open>
  C2. With no cutting line the result is exactly one polygon, the canvas rectangle with
  the corners (0,0), (w,0), (w,h), (0,h) in this order, and nothing is logged. The engine
  is arbitrary in the statement: the result does not depend on it.
\<close>

theorem splitSurface_no_cuts:
  "splitSurface Execute (s\<lparr>polylines := []\<rparr>) =
     \<lparr>logged = [],
      returned = [[\<lparr>x = 0, y = 0\<rparr>, \<lparr>x = width s, y = 0\<rparr>,
                   \<lparr>x = width s, y = height s\<rparr>, \<lparr>x = 0, y = height s\<rparr>]]\<rparr>"
  by (simp add: splitSurface_def mainPolygon_def)

section \<open>No check of the canvas size\<close>

text \<open>
  C3 as the specification words it, refuted. After the width field has been cleared the
  state holds width 0 (\<open>parseInt(e.target.value) || 0\<close>). With no cutting line the call
  then logs nothing and returns one polygon whose four corners lie on a line: a ring of
  area zero, handed back like any other result.
\<close>

theorem invalid_canvas_counterexample:
  "(width (canvas 0 500 []) \<le> 0 \<or> height (canvas 0 500 []) \<le> 0) \<and>
   splitSurface engine_keep_subject (canvas 0 500 []) =
     \<lparr>logged = [],
      returned = [[\<lparr>x = 0, y = 0\<rparr>, \<lparr>x = 0, y = 0\<rparr>, \<lparr>x = 0, y = 500\<rparr>, \<lparr>x = 0, y = 500\<rparr>]]\<rparr> \<and>
   signedArea [\<lparr>x = 0, y = 0\<rparr>, \<lparr>x = 0, y = 0\<rparr>, \<lparr>x = 0, y = 500\<rparr>, \<lparr>x = 0, y = 500\<rparr>] = 0"
  by (simp add: splitSurface_def canvas_def mainPolygon_def signedArea_def edges_def)

text \<open>
  C3, amended. A width or height that is not positive does not stop the operation. With no
  cutting line it returns the rectangle of that width and height as the single polygon and
  logs nothing; and whatever the cutting lines, the only error it ever logs is the one of
  a failed engine run, so nothing reports the canvas.
\<close>

theorem splitSurface_no_canvas_check:
  assumes "width s \<le> 0 \<or> height s \<le> 0"
  shows "(polylines s = [] \<longrightarrow>
            splitSurface Execute s = \<lparr>logged = [], returned = [mainPolygon s]\<rparr>) \<and>
         (\<forall>m. console_error m \<in> set (logged (splitSurface Execute s)) \<longrightarrow>
            polylines s \<noteq> [] \<and> \<not> fst (Execute (clipperAtExecute s)))"
  by (cases "Execute (clipperAtExecute s)") (auto simp add: splitSurface_def Let_def)

theorem splitSurface_no_canvas_check_witness:
  "(width (canvas 0 500 []) \<le> 0 \<or> height (canvas 0 500 []) \<le> 0) \<and>
   polylines (canvas 0 500 []) = [] \<and>
   splitSurface engine_keep_subject (canvas 0 500 []) =
     \<lparr>logged = [], returned = [mainPolygon (canvas 0 500 [])]\<rparr>"
  using splitSurface_no_canvas_check [of "canvas 0 500 []" engine_keep_subject]
  by (simp add: canvas_def)

section \<open>A failed engine run\<close>

text \<open>
  C1 as the specification words it, refuted. On a 100 by 100 canvas with one horizontal
  cut and an engine that reports failure, the list returned is empty: it is not the list
  holding the canvas.
\<close>

theorem failed_run_counterexample:
  "polylines (canvas 100 100 [cutLine 0 50 100 50]) \<noteq> [] \<and>
   \<not> fst (engine_failing (clipperAtExecute (canvas 100 100 [cutLine 0 50 100 50]))) \<and>
   returned (splitSurface engine_failing (canvas 100 100 [cutLine 0 50 100 50])) = [] \<and>
   returned (splitSurface engine_failing (canvas 100 100 [cutLine 0 50 100 50])) \<noteq>
     [mainPolygon (canvas 100 100 [cutLine 0 50 100 50])]"
  by (simp add: splitSurface_def canvas_def engine_failing_def)

text \<open>
  C1, amended. For every canvas and every cut list that is not empty, when \<open>Execute\<close>
  reports failure the operation logs the one error message and returns the empty list.
\<close>

theorem splitSurface_failed:
  assumes "polylines s \<noteq> []" and "\<not> fst (Execute (clipperAtExecute s))"
  shows "splitSurface Execute s =
     \<lparr>logged = [console_error ''Failed to split the surface with the given polylines.''],
      returned = []\<rparr>"
  using assms by (cases "Execute (clipperAtExecute s)") (simp add: splitSurface_def)

theorem splitSurface_failed_witness:
  "polylines (canvas 100 100 [cutLine 0 50 100 50]) \<noteq> [] \<and>
   \<not> fst (engine_failing (clipperAtExecute (canvas 100 100 [cutLine 0 50 100 50]))) \<and>
   splitSurface engine_failing (canvas 100 100 [cutLine 0 50 100 50]) =
     \<lparr>logged = [console_error ''Failed to split the surface with the given polylines.''],
      returned = []\<rparr>"
  using splitSurface_failed [of "canvas 100 100 [cutLine 0 50 100 50]" engine_failing]
  by (simp add: canvas_def engine_failing_def)

section \<open>The fixed-point mapper\<close>

subsection \<open>Rounding to a double\<close>

lemma roundTiesToEven_int: "roundTiesToEven (of_int z) = z"
  by (simp add: roundTiesToEven_def)

lemma roundTiesToEven_near: "\<bar>of_int (roundTiesToEven a) - a\<bar> \<le> 1 / 2"
  unfolding roundTiesToEven_def Let_def by (auto simp: abs_if) linarith+

lemma binade_eqI:
  assumes "2 powr of_int e \<le> \<bar>v\<bar>" and "\<bar>v\<bar> < 2 powr (of_int e + 1)"
  shows "binade v = e"
proof -
  have pos: "0 < \<bar>v\<bar>" using assms(1) by (smt (verit) powr_gt_zero)
  have "of_int e \<le> log 2 \<bar>v\<bar>" using assms(1) pos by (simp add: le_log_iff)
  moreover have "log 2 \<bar>v\<bar> < of_int e + 1" using assms(2) pos by (simp add: log_less_iff)
  ultimately show ?thesis unfolding binade_def by linarith
qed

lemma binade_le:
  assumes "v \<noteq> 0"
  shows "2 powr of_int (binade v) \<le> \<bar>v\<bar>"
proof -
  have "of_int (binade v) \<le> log 2 \<bar>v\<bar>" unfolding binade_def by simp
  then show ?thesis using assms by (simp add: le_log_iff)
qed

lemma roundToDouble_eval:
  assumes "u = 2 powr (of_int e - 52)"
    and "2 powr of_int e \<le> \<bar>v\<bar>" and "\<bar>v\<bar> < 2 powr (of_int e + 1)"
  shows "roundToDouble v = of_int (roundTiesToEven (v / u)) * u"
proof -
  have "v \<noteq> 0" using assms(2) by (smt (verit) powr_gt_zero)
  moreover have "binade v = e" using assms(2,3) by (rule binade_eqI)
  ultimately show ?thesis by (simp add: roundToDouble_def assms(1) Let_def)
qed

lemma roundToDouble_error: "\<bar>roundToDouble v - v\<bar> \<le> \<bar>v\<bar> / 2 ^ 53"
proof (cases "v = 0")
  case True
  then show ?thesis by (simp add: roundToDouble_def)
next
  case False
  define u :: real where "u = 2 powr (of_int (binade v) - 52)"
  have u: "0 < u" by (simp add: u_def)
  have fl: "roundToDouble v = of_int (roundTiesToEven (v / u)) * u"
    using False by (simp add: roundToDouble_def u_def Let_def)
  have "roundToDouble v - v = (of_int (roundTiesToEven (v / u)) - v / u) * u"
    using u by (simp add: fl field_simps)
  then have "\<bar>roundToDouble v - v\<bar> = \<bar>of_int (roundTiesToEven (v / u)) - v / u\<bar> * \<bar>u\<bar>"
    by (simp only: abs_mult)
  also have "\<dots> = \<bar>of_int (roundTiesToEven (v / u)) - v / u\<bar> * u"
    using u by simp
  also have "\<dots> \<le> 1 / 2 * u"
    using roundTiesToEven_near [of "v / u"] u by (intro mult_right_mono) simp_all
  also have "\<dots> = 2 powr of_int (binade v) / 2 ^ 53"
  proof -
    have "u = 2 powr of_int (binade v) / 2 powr 52" by (simp add: u_def powr_diff)
    then show ?thesis by simp
  qed
  also have "\<dots> \<le> \<bar>v\<bar> / 2 ^ 53"
    using binade_le [OF False] by (simp add: divide_right_mono)
  finally show ?thesis .
qed

lemma roundToDouble_exact:
  assumes v: "v = of_int m * 2 powr of_int q" and m: "\<bar>m\<bar> < 2 ^ 53"
  shows "roundToDouble v = v"
proof (cases "m = 0")
  case True
  then show ?thesis by (simp add: v roundToDouble_def)
next
  case False
  then have nz: "v \<noteq> 0" by (simp add: v)
  define e where "e = binade v"
  have "\<bar>v\<bar> = of_int \<bar>m\<bar> * 2 powr of_int q" by (simp add: v abs_mult)
  also have "\<dots> < 2 ^ 53 * 2 powr of_int q"
  proof -
    have "real_of_int \<bar>m\<bar> < real_of_int (2 ^ 53)" using m by (simp only: of_int_less_iff)
    then show ?thesis by simp
  qed
  also have "\<dots> = 2 powr (of_int q + 53)" by (simp add: powr_add)
  finally have "\<bar>v\<bar> < 2 powr (of_int q + 53)" .
  then have "log 2 \<bar>v\<bar> < of_int q + 53" using nz by (simp add: log_less_iff)
  then have "e < q + 53" unfolding e_def binade_def by linarith
  define k where "k = q + 52 - e"
  with \<open>e < q + 53\<close> have k: "0 \<le> k" by simp
  define u :: real where "u = 2 powr (of_int e - 52)"
  have u: "0 < u" by (simp add: u_def)
  have "v / u = of_int m * (2 powr of_int q / 2 powr (of_int e - 52))" by (simp add: v u_def)
  also have "(2::real) powr of_int q / 2 powr (of_int e - 52) = 2 powr of_int k"
    by (simp add: powr_diff [symmetric] algebra_simps k_def)
  also have "\<dots> = 2 ^ nat k" using k by (simp only: powr_real_of_int) simp
  finally have "v / u = of_int (m * 2 ^ nat k)" by simp
  then have "of_int (roundTiesToEven (v / u)) = v / u"
    by (simp only: roundTiesToEven_int)
  then have "of_int (roundTiesToEven (v / u)) * u = v" using u by simp
  then show ?thesis using nz by (simp add: roundToDouble_def u_def e_def Let_def)
qed

lemma roundToDouble_of_int: "\<bar>m\<bar> < 2 ^ 53 \<Longrightarrow> roundToDouble (of_int m) = of_int m"
  using roundToDouble_exact [of "of_int m" m 0] by simp

lemma roundToDouble_small:
  assumes "1 / 2 ^ n \<le> \<bar>v\<bar>" and "\<bar>v\<bar> < 2 / 2 ^ n"
  shows "roundToDouble v = of_int (roundTiesToEven (v * 2 ^ (n + 52))) / 2 ^ (n + 52)"
proof -
  have a: "(2::real) powr of_int (- int n) = 1 / 2 ^ n"
    by (simp add: powr_minus powr_realpow field_simps)
  have b: "(2::real) powr (of_int (- int n) + 1) = 2 / 2 ^ n"
    by (simp only: powr_add a) simp
  have "(2::real) powr (of_int (- int n) - 52) = 2 powr of_int (- int (n + 52))"
    by simp
  also have "\<dots> = 1 / 2 ^ (n + 52)"
    by (simp add: powr_minus powr_realpow field_simps del: of_nat_add)
  finally have c: "1 / 2 ^ (n + 52) = (2::real) powr (of_int (- int n) - 52)" by simp
  from roundToDouble_eval [OF c] assms a b
  have "roundToDouble v =
      of_int (roundTiesToEven (v / (1 / 2 ^ (n + 52)))) * (1 / 2 ^ (n + 52))"
    by simp
  then show ?thesis by simp
qed

lemma Math_round_bounds:
  "of_int (Math_round v) - 1 / 2 \<le> v \<and> v < of_int (Math_round v) + 1 / 2"
  unfolding Math_round_def by linarith

lemma Math_round_eqI:
  assumes "of_int n - 1 / 2 \<le> v" and "v < of_int n + 1 / 2"
  shows "Math_round v = n"
  unfolding Math_round_def using assms by linarith

subsection \<open>The rounding rule\<close>

text \<open>
  C4 as the specification words it, refuted. The point (-1/8, 1/8) scaled by 100 has the
  coordinates -12.5 and 12.5, both doubles, so the products are exact. The code maps the
  point to (-12, 13); rounding a tie away from zero gives -13 for the first coordinate,
  rounding a tie to the even neighbour gives 12 for the second. So the code follows
  neither rule.
\<close>

theorem rounding_rule_counterexample:
  "scaleUpPath [\<lparr>x = - (1 / 8), y = 1 / 8\<rparr>] scale = [\<lparr>X = - 12, Y = 13\<rparr>] \<and>
   toLattice_half_away [\<lparr>x = - (1 / 8), y = 1 / 8\<rparr>] scale = [\<lparr>X = - 13, Y = 13\<rparr>] \<and>
   toLattice_half_even [\<lparr>x = - (1 / 8), y = 1 / 8\<rparr>] scale = [\<lparr>X = - 12, Y = 12\<rparr>] \<and>
   scaleUpPath [\<lparr>x = - (1 / 8), y = 1 / 8\<rparr>] scale \<noteq>
     toLattice_half_away [\<lparr>x = - (1 / 8), y = 1 / 8\<rparr>] scale \<and>
   scaleUpPath [\<lparr>x = - (1 / 8), y = 1 / 8\<rparr>] scale \<noteq>
     toLattice_half_even [\<lparr>x = - (1 / 8), y = 1 / 8\<rparr>] scale"
proof -
  have e1: "roundToDouble (- (25 / 2)) = - (25 / 2)"
    using roundToDouble_exact [of "- (25 / 2)" "- 25" "- 1"] by simp
  have e2: "roundToDouble (25 / 2) = 25 / 2"
    using roundToDouble_exact [of "25 / 2" 25 "- 1"] by simp
  have p1: "- (1 / 8) * scale = - (25 / 2)" and p2: "1 / 8 * scale = 25 / 2"
    by (simp_all add: scale_def)
  have m1: "Math_round (roundToDouble (- (1 / 8) * scale)) = - 12"
    by (simp only: p1 e1) (simp add: Math_round_def)
  have m2: "Math_round (roundToDouble (1 / 8 * scale)) = 13"
    by (simp only: p2 e2) (simp add: Math_round_def)
  have up: "scaleUpPath [\<lparr>x = - (1 / 8), y = 1 / 8\<rparr>] scale = [\<lparr>X = - 12, Y = 13\<rparr>]"
    by (simp only: scaleUpPath_def list.map point.select_convs m1 m2)
  have away: "toLattice_half_away [\<lparr>x = - (1 / 8), y = 1 / 8\<rparr>] scale = [\<lparr>X = - 13, Y = 13\<rparr>]"
    by (simp add: toLattice_half_away_def scale_def round_half_away_from_zero_def)
  have even: "toLattice_half_even [\<lparr>x = - (1 / 8), y = 1 / 8\<rparr>] scale = [\<lparr>X = - 12, Y = 12\<rparr>]"
    by (simp add: toLattice_half_even_def scale_def round_half_to_even_def Let_def)
  show ?thesis
    by (simp only: up away even) simp
qed

text \<open>
  C4, amended. For every coordinate and every scale, the scaling-up step multiplies the
  coordinate by the scale in double arithmetic and takes the integer nearest to that
  product, a tie going to the greater one (towards plus infinity), for negative
  coordinates as for all others: the lattice coordinate \<open>N\<close> of the double product \<open>d\<close> is
  the integer with \<open>N - 1/2 \<le> d < N + 1/2\<close>, and \<open>d\<close> differs from the exact product by at
  most its \<open>2^53\<close>-th part.
\<close>

theorem scaleUpPath_nearest_ties_up:
  "list_all2
     (\<lambda>P p.
        of_int (X P) - 1 / 2 \<le> roundToDouble (x p * sc) \<and>
        roundToDouble (x p * sc) < of_int (X P) + 1 / 2 \<and>
        \<bar>roundToDouble (x p * sc) - x p * sc\<bar> \<le> \<bar>x p * sc\<bar> / 2 ^ 53 \<and>
        of_int (Y P) - 1 / 2 \<le> roundToDouble (y p * sc) \<and>
        roundToDouble (y p * sc) < of_int (Y P) + 1 / 2 \<and>
        \<bar>roundToDouble (y p * sc) - y p * sc\<bar> \<le> \<bar>y p * sc\<bar> / 2 ^ 53)
     (scaleUpPath pth sc) pth"
  unfolding scaleUpPath_def list_all2_map1 list_all2_same
  using Math_round_bounds roundToDouble_error by simp

subsection \<open>Up and down again\<close>

lemma round_trip_coordinate:
  "\<bar>of_int (Math_round (roundToDouble (v * scale))) / scale - v\<bar> \<le> 1 / 200 + (\<bar>v\<bar> + 1) / 2 ^ 51"
proof -
  define d where "d = roundToDouble (v * 100)"
  have 1: "\<bar>of_int (Math_round d) - d\<bar> \<le> 1 / 2"
    using Math_round_bounds [of d] by linarith
  have "\<bar>d - v * 100\<bar> \<le> \<bar>v * 100\<bar> / 2 ^ 53"
    unfolding d_def by (rule roundToDouble_error)
  then have 2: "\<bar>d - v * 100\<bar> \<le> 100 * \<bar>v\<bar> / 2 ^ 53"
    by (simp add: abs_mult)
  have "\<bar>of_int (Math_round d) - v * 100\<bar> \<le> 1 / 2 + 100 * \<bar>v\<bar> / 2 ^ 53"
    using 1 2 by linarith
  then have "\<bar>of_int (Math_round d) / 100 - v\<bar> \<le> 1 / 200 + \<bar>v\<bar> / 2 ^ 53"
    by (simp add: field_simps abs_if split: if_splits)
  moreover have "\<bar>v\<bar> / 2 ^ 53 \<le> (\<bar>v\<bar> + 1) / 2 ^ 51"
    by (simp add: field_simps)
  ultimately show ?thesis
    unfolding d_def scale_def by linarith
qed

text \<open>
  C10 as written, refuted. The double written 0.015 is 8646911284551352 / 2^59, a little
  below 0.015. Its double product with 100 is exactly 1.5, which \<open>Math.round\<close> sends to 2;
  scaling down gives 0.02, further than 1/200 from the point.
\<close>

theorem round_trip_counterexample:
  "roundToDouble (3 / 200) = 8646911284551352 / 2 ^ 59 \<and>
   scaleUpPath [\<lparr>x = 8646911284551352 / 2 ^ 59, y = 0\<rparr>] scale = [\<lparr>X = 2, Y = 0\<rparr>] \<and>
   scaleDownPath (scaleUpPath [\<lparr>x = 8646911284551352 / 2 ^ 59, y = 0\<rparr>] scale) scale =
     [\<lparr>x = 1 / 50, y = 0\<rparr>] \<and>
   1 / 200 < \<bar>1 / 50 - 8646911284551352 / 2 ^ 59 :: real\<bar>"
proof -
  have a: "roundToDouble (3 / 200) = 8646911284551352 / 2 ^ 59"
    using roundToDouble_small [of 7 "3 / 200"] by (simp add: roundTiesToEven_def)
  have b: "roundToDouble (8646911284551352 / 2 ^ 59 * 100) = 3 / 2"
    using roundToDouble_small [of 0 "8646911284551352 / 2 ^ 59 * 100"]
    by (simp add: roundTiesToEven_def)
  have z: "roundToDouble (0 * scale) = 0"
    by (simp add: roundToDouble_def)
  have m1: "Math_round (roundToDouble (8646911284551352 / 2 ^ 59 * scale)) = 2"
    unfolding scale_def by (simp only: b) (simp add: Math_round_def)
  have m2: "Math_round (roundToDouble (0 * scale)) = 0"
    by (simp only: z) (simp add: Math_round_def)
  have c: "scaleUpPath [\<lparr>x = 8646911284551352 / 2 ^ 59, y = 0\<rparr>] scale = [\<lparr>X = 2, Y = 0\<rparr>]"
    by (simp only: scaleUpPath_def list.map point.select_convs m1 m2)
  have d: "scaleDownPath [\<lparr>X = 2, Y = 0\<rparr>] scale = [\<lparr>x = 1 / 50, y = 0\<rparr>]"
    by (simp add: scaleDownPath_def scale_def)
  have e: "1 / 200 < \<bar>1 / 50 - 8646911284551352 / 2 ^ 59 :: real\<bar>"
    by simp
  from a c d e show ?thesis
    by (simp only: simp_thms)
qed

text \<open>
  C10, amended. Scaling a path up by 100 and down again keeps its length and moves every
  coordinate \<open>v\<close> of every point by at most \<open>1/200 + (|v| + 1) / 2^51\<close>: half a lattice unit
  and the rounding of the double arithmetic.
\<close>

theorem scale_round_trip:
  "list_all2
     (\<lambda>q p. \<bar>x q - x p\<bar> \<le> 1 / 200 + (\<bar>x p\<bar> + 1) / 2 ^ 51 \<and>
            \<bar>y q - y p\<bar> \<le> 1 / 200 + (\<bar>y p\<bar> + 1) / 2 ^ 51)
     (scaleDownPath (scaleUpPath pth scale) scale) pth"
  unfolding scaleUpPath_def scaleDownPath_def list_all2_map1 list_all2_same
  using round_trip_coordinate by simp

section \<open>What the result depends on\<close>

lemma clipPath_points: "points l = points l' \<Longrightarrow> clipPath l = clipPath l'"
  by (simp add: clipPath_def)

lemma addClips_points:
  "map points ls = map points ls' \<Longrightarrow> addClips ls c = addClips ls' c"
proof (induction ls arbitrary: ls' c)
  case Nil
  then show ?case by simp
next
  case (Cons l ls)
  then obtain l' rest where ls': "ls' = l' # rest" by (cases ls') auto
  with Cons.prems have "points l = points l'" and "map points ls = map points rest" by auto
  then show ?case
    using Cons.IH [of rest] clipPath_points [of l l'] by (simp add: ls')
qed

text \<open>
  The operation reads the width, the height and the end points of the lines, and nothing
  else of the state: the ids and colours of the lines, the selected algorithm and colour
  set do not enter. Whether two runs of the program on the same state agree is not said by
  this: it rests on the clipping library, which is one and the same function here.
\<close>

lemma splitSurface_reads_size_and_points_only:
  assumes "width s = width s'" and "height s = height s'"
    and "map points (polylines s) = map points (polylines s')"
  shows "splitSurface Execute s = splitSurface Execute s'"
proof -
  have m: "mainPolygon s = mainPolygon s'"
    using assms by (simp add: mainPolygon_def)
  have c: "clipperAtExecute s = clipperAtExecute s'"
    using addClips_points [OF assms(3)] m by (simp add: clipperAtExecute_def)
  have e: "polylines s = [] \<longleftrightarrow> polylines s' = []"
    using assms(3) by (metis map_is_Nil_conv)
  show ?thesis
    using m c e by (simp add: splitSurface_def)
qed

text \<open>Every run with a cutting line writes one message to the console.\<close>

lemma splitSurface_logs:
  assumes "polylines s \<noteq> []"
  shows "length (logged (splitSurface Execute s)) = 1"
  using assms by (cases "Execute (clipperAtExecute s)") (simp add: splitSurface_def Let_def)

section \<open>Lines of length zero\<close>




lemma Math_round_double_int:
  assumes "\<bar>m\<bar> < 2 ^ 53"
  shows "Math_round (roundToDouble (of_int m)) = m"
  by (simp add: roundToDouble_of_int [OF assms] Math_round_def)

lemma scaleUpPath_canvas_100:
  "scaleUpPath (mainPolygon (canvas 100 100 cuts)) scale =
     [\<lparr>X = 0, Y = 0\<rparr>, \<lparr>X = 10000, Y = 0\<rparr>, \<lparr>X = 10000, Y = 10000\<rparr>, \<lparr>X = 0, Y = 10000\<rparr>]"
proof -
  have m: "Math_round (roundToDouble (0 * scale)) = 0"
    "Math_round (roundToDouble (100 * scale)) = 10000"
    using Math_round_double_int [of 0] Math_round_double_int [of 10000]
    by (simp_all add: scale_def)
  have "mainPolygon (canvas 100 100 cuts) =
      [\<lparr>x = 0, y = 0\<rparr>, \<lparr>x = 100, y = 0\<rparr>, \<lparr>x = 100, y = 100\<rparr>, \<lparr>x = 0, y = 100\<rparr>]"
    by (simp add: mainPolygon_def canvas_def)
  then show ?thesis
    by (simp only: scaleUpPath_def list.map point.select_convs m)
qed




section \<open>The quadrilateral of a cutting line\<close>

text \<open>Coordinates of a point along two perpendicular directions.\<close>

lemma along_u:
  fixes ux uy vx vy :: real
  assumes "ux * vx + uy * vy = 0"
  shows "(al * ux + be * vx) * ux + (al * uy + be * vy) * uy = al * (ux * ux + uy * uy)"
proof -
  have "(al * ux + be * vx) * ux + (al * uy + be * vy) * uy =
        al * (ux * ux + uy * uy) + be * (ux * vx + uy * vy)"
    by (simp add: algebra_simps)
  with assms show ?thesis by simp
qed

lemma along_v:
  fixes ux uy vx vy :: real
  assumes "ux * vx + uy * vy = 0"
  shows "(al * ux + be * vx) * vx + (al * uy + be * vy) * vy = be * (vx * vx + vy * vy)"
proof -
  have "(al * ux + be * vx) * vx + (al * uy + be * vy) * vy =
        be * (vx * vx + vy * vy) + al * (ux * vx + uy * vy)"
    by (simp add: algebra_simps)
  with assms show ?thesis by simp
qed

lemma frame_unique:
  fixes ux uy vx vy :: real
  assumes o: "ux * vx + uy * vy = 0" and u: "0 < ux * ux + uy * uy" and v: "0 < vx * vx + vy * vy"
    and ex: "al * ux + be * vx = al' * ux + be' * vx"
    and ey: "al * uy + be * vy = al' * uy + be' * vy"
  shows "al = al' \<and> be = be'"
proof -
  define D where "D = ux * ux + uy * uy"
  define E where "E = vx * vx + vy * vy"
  have "al * D = (al * ux + be * vx) * ux + (al * uy + be * vy) * uy"
    unfolding D_def by (rule along_u [OF o, symmetric])
  also have "\<dots> = (al' * ux + be' * vx) * ux + (al' * uy + be' * vy) * uy"
    by (simp only: ex ey)
  also have "\<dots> = al' * D"
    unfolding D_def by (rule along_u [OF o])
  finally have "al * D = al' * D" .
  moreover have "D \<noteq> 0" using u unfolding D_def by linarith
  ultimately have a: "al = al'" by simp
  have "be * E = (al * ux + be * vx) * vx + (al * uy + be * vy) * vy"
    unfolding E_def by (rule along_v [OF o, symmetric])
  also have "\<dots> = (al' * ux + be' * vx) * vx + (al' * uy + be' * vy) * vy"
    by (simp only: ex ey)
  also have "\<dots> = be' * E"
    unfolding E_def by (rule along_v [OF o])
  finally have "be * E = be' * E" .
  moreover have "E \<noteq> 0" using v unfolding E_def by linarith
  ultimately have "be = be'" by simp
  with a show ?thesis by simp
qed

lemma on_edge_frame:
  fixes ux uy vx vy :: real
  assumes "on_segment p q r"
    and "x p = ax + (al * ux + be * vx)" and "y p = ay + (al * uy + be * vy)"
    and "x q = ax + (al' * ux + be' * vx)" and "y q = ay + (al' * uy + be' * vy)"
  shows "\<exists>t. 0 \<le> t \<and> t \<le> 1 \<and>
    x r = ax + ((al + t * (al' - al)) * ux + (be + t * (be' - be)) * vx) \<and>
    y r = ay + ((al + t * (al' - al)) * uy + (be + t * (be' - be)) * vy)"
proof -
  from assms(1) obtain t where t: "0 \<le> t" "t \<le> 1"
    and rx: "x r = x p + t * (x q - x p)" and ry: "y r = y p + t * (y q - y p)"
    unfolding on_segment_def by blast
  have "x r = ax + ((al + t * (al' - al)) * ux + (be + t * (be' - be)) * vx)"
    unfolding rx assms(2) assms(4) by (simp add: algebra_simps)
  moreover have "y r = ay + ((al + t * (al' - al)) * uy + (be + t * (be' - be)) * vy)"
    unfolding ry assms(3) assms(5) by (simp add: algebra_simps)
  ultimately show ?thesis using t by blast
qed

lemma two_edges_frame:
  fixes ux uy vx vy :: real
  assumes o: "ux * vx + uy * vy = 0" and u: "0 < ux * ux + uy * uy" and v: "0 < vx * vx + vy * vy"
    and e1: "on_segment p q r"
    and p: "x p = ax + (al * ux + be * vx)" "y p = ay + (al * uy + be * vy)"
    and q: "x q = ax + (al' * ux + be' * vx)" "y q = ay + (al' * uy + be' * vy)"
    and e2: "on_segment p2 q2 r"
    and p2: "x p2 = ax + (ga * ux + de * vx)" "y p2 = ay + (ga * uy + de * vy)"
    and q2: "x q2 = ax + (ga' * ux + de' * vx)" "y q2 = ay + (ga' * uy + de' * vy)"
  shows "\<exists>t s. 0 \<le> t \<and> t \<le> 1 \<and> 0 \<le> s \<and> s \<le> 1 \<and>
    al + t * (al' - al) = ga + s * (ga' - ga) \<and>
    be + t * (be' - be) = de + s * (de' - de) \<and>
    x r = ax + ((al + t * (al' - al)) * ux + (be + t * (be' - be)) * vx) \<and>
    y r = ay + ((al + t * (al' - al)) * uy + (be + t * (be' - be)) * vy)"
proof -
  from on_edge_frame [OF e1 p q] obtain t where t: "0 \<le> t" "t \<le> 1"
    and tx: "x r = ax + ((al + t * (al' - al)) * ux + (be + t * (be' - be)) * vx)"
    and ty: "y r = ay + ((al + t * (al' - al)) * uy + (be + t * (be' - be)) * vy)"
    by blast
  from on_edge_frame [OF e2 p2 q2] obtain s where s: "0 \<le> s" "s \<le> 1"
    and sx: "x r = ax + ((ga + s * (ga' - ga)) * ux + (de + s * (de' - de)) * vx)"
    and sy: "y r = ay + ((ga + s * (ga' - ga)) * uy + (de + s * (de' - de)) * vy)"
    by blast
  have "(al + t * (al' - al)) * ux + (be + t * (be' - be)) * vx =
        (ga + s * (ga' - ga)) * ux + (de + s * (de' - de)) * vx"
    using tx sx by linarith
  moreover have "(al + t * (al' - al)) * uy + (be + t * (be' - be)) * vy =
        (ga + s * (ga' - ga)) * uy + (de + s * (de' - de)) * vy"
    using ty sy by linarith
  ultimately have "al + t * (al' - al) = ga + s * (ga' - ga) \<and>
      be + t * (be' - be) = de + s * (de' - de)"
    by (rule frame_unique [OF o u v])
  with t s tx ty show ?thesis by blast
qed

lemma rectangle_distinct:
  assumes "is_rectangle a b c d ux uy vx vy"
  shows "distinct [a, b, c, d]"
proof -
  from assms have o: "ux * vx + uy * vy = 0" and u: "0 < ux * ux + uy * uy"
    and v: "0 < vx * vx + vy * vy"
    unfolding is_rectangle_def by blast+
  from assms have
    a: "x a = x a + (0 * ux + 0 * vx)" "y a = y a + (0 * uy + 0 * vy)" and
    b: "x b = x a + (1 * ux + 0 * vx)" "y b = y a + (1 * uy + 0 * vy)" and
    c: "x c = x a + (1 * ux + 1 * vx)" "y c = y a + (1 * uy + 1 * vy)" and
    d: "x d = x a + (0 * ux + 1 * vx)" "y d = y a + (0 * uy + 1 * vy)"
    unfolding is_rectangle_def by simp_all
  have diff: "p \<noteq> q"
    if "x p = x a + (al * ux + be * vx)" "y p = y a + (al * uy + be * vy)"
      "x q = x a + (al' * ux + be' * vx)" "y q = y a + (al' * uy + be' * vy)"
      "al \<noteq> al' \<or> be \<noteq> be'" for p q :: point and al be al' be'
  proof
    assume "p = q"
    with that have "al * ux + be * vx = al' * ux + be' * vx"
      and "al * uy + be * vy = al' * uy + be' * vy" by simp_all
    then have "al = al' \<and> be = be'" by (rule frame_unique [OF o u v])
    with that(5) show False by blast
  qed
  have "a \<noteq> b" by (rule diff [OF a b]) simp
  moreover have "a \<noteq> c" by (rule diff [OF a c]) simp
  moreover have "a \<noteq> d" by (rule diff [OF a d]) simp
  moreover have "b \<noteq> c" by (rule diff [OF b c]) simp
  moreover have "b \<noteq> d" by (rule diff [OF b d]) simp
  moreover have "c \<noteq> d" by (rule diff [OF c d]) simp
  ultimately show ?thesis by simp
qed

lemma rectangle_simple:
  assumes r: "is_rectangle a b c d ux uy vx vy"
  shows "simple_polygon [a, b, c, d]"
proof -
  from r have o: "ux * vx + uy * vy = 0" and u: "0 < ux * ux + uy * uy"
    and v: "0 < vx * vx + vy * vy"
    unfolding is_rectangle_def by blast+
  from r have
    a: "x a = x a + (0 * ux + 0 * vx)" "y a = y a + (0 * uy + 0 * vy)" and
    b: "x b = x a + (1 * ux + 0 * vx)" "y b = y a + (1 * uy + 0 * vy)" and
    c: "x c = x a + (1 * ux + 1 * vx)" "y c = y a + (1 * uy + 1 * vy)" and
    d: "x d = x a + (0 * ux + 1 * vx)" "y d = y a + (0 * uy + 1 * vy)"
    unfolding is_rectangle_def by simp_all
  note meet = two_edges_frame [OF o u v]
  have ab_bc: "p = b" if "on_segment a b p" "on_segment b c p" for p
  proof -
    from meet [OF that(1) a b that(2) b c] obtain t s where
      "0 \<le> t" "t \<le> 1" "0 \<le> s" "s \<le> 1" "0 + t * (1 - 0) = 1 + s * (1 - 1)"
      "x p = x a + ((0 + t * (1 - 0)) * ux + (0 + t * (0 - 0)) * vx)"
      "y p = y a + ((0 + t * (1 - 0)) * uy + (0 + t * (0 - 0)) * vy)"
      by blast
    then have "x p = x b" "y p = y b" using b by simp_all
    then show ?thesis by simp
  qed
  have bc_cd: "p = c" if "on_segment b c p" "on_segment c d p" for p
  proof -
    from meet [OF that(1) b c that(2) c d] obtain t s where
      "0 \<le> t" "t \<le> 1" "0 \<le> s" "s \<le> 1" "0 + t * (1 - 0) = 1 + s * (1 - 1)"
      "x p = x a + ((1 + t * (1 - 1)) * ux + (0 + t * (1 - 0)) * vx)"
      "y p = y a + ((1 + t * (1 - 1)) * uy + (0 + t * (1 - 0)) * vy)"
      by blast
    then have "x p = x c" "y p = y c" using c by simp_all
    then show ?thesis by simp
  qed
  have cd_da: "p = d" if "on_segment c d p" "on_segment d a p" for p
  proof -
    from meet [OF that(1) c d that(2) d a] obtain t s where
      "0 \<le> t" "t \<le> 1" "0 \<le> s" "s \<le> 1" "1 + t * (0 - 1) = 0 + s * (0 - 0)"
      "x p = x a + ((1 + t * (0 - 1)) * ux + (1 + t * (1 - 1)) * vx)"
      "y p = y a + ((1 + t * (0 - 1)) * uy + (1 + t * (1 - 1)) * vy)"
      by blast
    then have "x p = x d" "y p = y d" using d by simp_all
    then show ?thesis by simp
  qed
  have ab_da: "p = a" if "on_segment a b p" "on_segment d a p" for p
  proof -
    from meet [OF that(1) a b that(2) d a] obtain t s where
      "0 \<le> t" "t \<le> 1" "0 \<le> s" "s \<le> 1" "0 + t * (1 - 0) = 0 + s * (0 - 0)"
      "x p = x a + ((0 + t * (1 - 0)) * ux + (0 + t * (0 - 0)) * vx)"
      "y p = y a + ((0 + t * (1 - 0)) * uy + (0 + t * (0 - 0)) * vy)"
      by blast
    then have "x p = x a" "y p = y a" by simp_all
    then show ?thesis by simp
  qed
  have ab_cd: False if "on_segment a b p" "on_segment c d p" for p
  proof -
    from meet [OF that(1) a b that(2) c d] obtain t s :: real where
      "0 + t * (0 - 0) = 1 + s * (1 - 1)"
      by blast
    then show False by simp
  qed
  have bc_da: False if "on_segment b c p" "on_segment d a p" for p
  proof -
    from meet [OF that(1) b c that(2) d a] obtain t s :: real where
      "1 + t * (1 - 1) = 0 + s * (0 - 0)"
      by blast
    then show False by simp
  qed
  have key: "(j = Suc i \<and> p = [a, b, c, d] ! j) \<or>
        (i = 0 \<and> Suc j = length [a, b, c, d] \<and> p = [a, b, c, d] ! 0)"
    if h: "i < j \<and> j < length [a, b, c, d] \<and>
        on_segment ([a, b, c, d] ! i) ([a, b, c, d] ! (Suc i mod length [a, b, c, d])) p \<and>
        on_segment ([a, b, c, d] ! j) ([a, b, c, d] ! (Suc j mod length [a, b, c, d])) p"
    for i j p
  proof -
    from h have "i < j" "j < 4" by simp_all
    then consider "i = 0 \<and> j = 1" | "i = 0 \<and> j = 2" | "i = 0 \<and> j = 3"
      | "i = 1 \<and> j = 2" | "i = 1 \<and> j = 3" | "i = 2 \<and> j = 3"
      by linarith
    then show ?thesis
    proof cases
      case 1
      with h have "on_segment a b p" "on_segment b c p" by simp_all
      then have "p = b" by (rule ab_bc)
      with 1 show ?thesis by simp
    next
      case 2
      with h have "on_segment a b p" "on_segment c d p" by simp_all
      then show ?thesis using ab_cd by blast
    next
      case 3
      with h have "on_segment a b p" "on_segment d a p" by simp_all
      then have "p = a" by (rule ab_da)
      with 3 show ?thesis by simp
    next
      case 4
      with h have "on_segment b c p" "on_segment c d p" by simp_all
      then have "p = c" by (rule bc_cd)
      with 4 show ?thesis by simp
    next
      case 5
      with h have "on_segment b c p" "on_segment d a p" by simp_all
      then show ?thesis using bc_da by blast
    next
      case 6
      with h have "on_segment c d p" "on_segment d a p" by simp_all
      then have "p = d" by (rule cd_da)
      with 6 show ?thesis by simp
    qed
  qed
  show ?thesis
    unfolding simple_polygon_def
  proof (intro conjI allI impI)
    show "3 \<le> length [a, b, c, d]" by simp
    show "distinct [a, b, c, d]" by (rule rectangle_distinct [OF r])
  qed (rule key)
qed

lemma rectangle_area:
  assumes "is_rectangle a b c d ux uy vx vy"
  shows "signedArea [a, b, c, d] = ux * vy - uy * vx"
proof -
  from assms have
    b: "x b = x a + ux" "y b = y a + uy" and
    c: "x c = x a + ux + vx" "y c = y a + uy + vy" and
    d: "x d = x a + vx" "y d = y a + vy"
    unfolding is_rectangle_def by simp_all
  show ?thesis
    unfolding signedArea_def edges_def by (simp add: b c d field_simps)
qed

lemma segment_length_positive:
  assumes "p0 \<noteq> (p1::point)"
  shows "0 < sqrt ((x p1 - x p0) * (x p1 - x p0) + (y p1 - y p0) * (y p1 - y p0))"
proof -
  from assms have "x p1 - x p0 \<noteq> 0 \<or> y p1 - y p0 \<noteq> 0" by auto
  then have "0 < (x p1 - x p0) * (x p1 - x p0) + (y p1 - y p0) * (y p1 - y p0)"
    by (metis add.commute add_pos_nonneg not_real_square_gt_zero zero_le_square)
  then show ?thesis by simp
qed

text \<open>
  C7. For a line with two different end points the callback builds a quadrilateral of
  four points: the end points, each moved by plus and by minus one half along the unit
  normal of the line, in the order start plus, end plus, end minus, start minus. The
  normal has length one and is perpendicular to the line. The quadrilateral does not cut
  itself, and its signed area is the length of the line, so it is positive for every
  line: all quadrilaterals wind the same way.
\<close>

theorem clipPath_blade:
  assumes "fst (points line) \<noteq> snd (points line)"
  shows "let p0 = fst (points line); p1 = snd (points line);
             dx = x p1 - x p0; dy = y p1 - y p0;
             len = sqrt (dx * dx + dy * dy);
             nx = dy / len; ny = - dx / len;
             w = 1 / 2;
             blade = [\<lparr>x = x p0 + w * nx, y = y p0 + w * ny\<rparr>,
                      \<lparr>x = x p1 + w * nx, y = y p1 + w * ny\<rparr>,
                      \<lparr>x = x p1 - w * nx, y = y p1 - w * ny\<rparr>,
                      \<lparr>x = x p0 - w * nx, y = y p0 - w * ny\<rparr>]
         in nx * nx + ny * ny = 1 \<and> nx * dx + ny * dy = 0 \<and>
            clipPath line = Some blade \<and> simple_polygon blade \<and>
            signedArea blade = len \<and> 0 < len"
proof -
  define p0 where "p0 = fst (points line)"
  define p1 where "p1 = snd (points line)"
  define dx where "dx = x p1 - x p0"
  define dy where "dy = y p1 - y p0"
  define len where "len = sqrt (dx * dx + dy * dy)"
  define nx where "nx = dy / len"
  define ny where "ny = - dx / len"
  define a where "a = \<lparr>x = x p0 + 1 / 2 * nx, y = y p0 + 1 / 2 * ny\<rparr>"
  define b where "b = \<lparr>x = x p1 + 1 / 2 * nx, y = y p1 + 1 / 2 * ny\<rparr>"
  define c where "c = \<lparr>x = x p1 - 1 / 2 * nx, y = y p1 - 1 / 2 * ny\<rparr>"
  define d where "d = \<lparr>x = x p0 - 1 / 2 * nx, y = y p0 - 1 / 2 * ny\<rparr>"
  have pos: "0 < len"
    using assms segment_length_positive [of p0 p1]
    by (simp add: len_def dx_def dy_def p0_def p1_def)
  have sq: "len * len = dx * dx + dy * dy"
    unfolding len_def by simp
  have unit: "nx * nx + ny * ny = 1"
  proof -
    have ne: "len * len \<noteq> 0" using pos by simp
    have "nx * nx + ny * ny = (dx * dx + dy * dy) / (len * len)"
      by (simp add: nx_def ny_def add_divide_distrib)
    also have "\<dots> = (len * len) / (len * len)" by (simp only: sq)
    also have "\<dots> = 1" using ne by (rule divide_self)
    finally show ?thesis .
  qed
  have perp: "nx * dx + ny * dy = 0"
    by (simp add: nx_def ny_def)
  have "clipPath line = (if len = 0 then None else Some [a, b, c, d])"
    by (simp add: clipPath_def Let_def lineWidth_def scale_def a_def b_def c_def d_def
        nx_def ny_def len_def dx_def dy_def p0_def p1_def)
  with pos have cp: "clipPath line = Some [a, b, c, d]"
    by simp
  have rect: "is_rectangle a b c d dx dy (- nx) (- ny)"
    unfolding is_rectangle_def
  proof (intro conjI)
    show "dx * - nx + dy * - ny = 0" using perp by (simp add: algebra_simps)
    show "0 < dx * dx + dy * dy" using pos sq by (metis mult_pos_pos)
    show "0 < - nx * - nx + - ny * - ny" using unit by simp
  qed (simp_all add: a_def b_def c_def d_def dx_def dy_def)
  have area: "signedArea [a, b, c, d] = len"
  proof -
    have "signedArea [a, b, c, d] = dx * - ny - dy * - nx"
      by (rule rectangle_area [OF rect])
    also have "\<dots> = (dx * dx + dy * dy) / len"
      by (simp add: nx_def ny_def add_divide_distrib)
    also have "\<dots> = len" using sq pos by (metis nonzero_mult_div_cancel_left less_irrefl)
    finally show ?thesis .
  qed
  have "nx * nx + ny * ny = 1 \<and> nx * dx + ny * dy = 0 \<and>
        clipPath line = Some [a, b, c, d] \<and> simple_polygon [a, b, c, d] \<and>
        signedArea [a, b, c, d] = len \<and> 0 < len"
    using unit perp cp rectangle_simple [OF rect] area pos by blast
  then show ?thesis
    unfolding Let_def a_def b_def c_def d_def nx_def ny_def len_def dx_def dy_def p0_def p1_def .
qed

lemma sqrt_25: "sqrt 25 = 5"
proof -
  have "sqrt 25 = sqrt (5 * 5)" by simp
  also have "\<dots> = \<bar>5\<bar>" by (rule real_sqrt_abs2)
  finally show ?thesis by simp
qed

theorem clipPath_blade_witness:
  "fst (points (cutLine 0 0 3 4)) \<noteq> snd (points (cutLine 0 0 3 4)) \<and>
   clipPath (cutLine 0 0 3 4) =
     Some [\<lparr>x = 2 / 5, y = - (3 / 10)\<rparr>, \<lparr>x = 17 / 5, y = 37 / 10\<rparr>,
           \<lparr>x = 13 / 5, y = 43 / 10\<rparr>, \<lparr>x = - (2 / 5), y = 3 / 10\<rparr>] \<and>
   simple_polygon [\<lparr>x = 2 / 5, y = - (3 / 10)\<rparr>, \<lparr>x = 17 / 5, y = 37 / 10\<rparr>,
           \<lparr>x = 13 / 5, y = 43 / 10\<rparr>, \<lparr>x = - (2 / 5), y = 3 / 10\<rparr>] \<and>
   signedArea [\<lparr>x = 2 / 5, y = - (3 / 10)\<rparr>, \<lparr>x = 17 / 5, y = 37 / 10\<rparr>,
           \<lparr>x = 13 / 5, y = 43 / 10\<rparr>, \<lparr>x = - (2 / 5), y = 3 / 10\<rparr>] = 5"
  using clipPath_blade [of "cutLine 0 0 3 4"]
  by (simp add: cutLine_def Let_def sqrt_25)

section \<open>A cut outside the canvas\<close>

text \<open>
  The 100 by 100 canvas with the one cut from (200,200) to (300,300). The engine is handed
  the canvas as the square from 0 to 10000 and one clip quadrilateral whose coordinates
  all lie between 19965 and 30035, so the two do not meet. What the engine returns for
  them is decided in the library.
\<close>

lemma sqrt_20000_lower: "565 / 4 < sqrt 20000"
  by (rule real_less_rsqrt) (simp add: power2_eq_square)

lemma sqrt_20000_upper: "sqrt 20000 < 283 / 2"
  by (rule real_less_lsqrt) (simp_all add: power2_eq_square)

lemma outside_offset: "353 / 10 < 5000 / sqrt 20000 \<and> 5000 / sqrt 20000 < 354 / 10"
proof -
  have p: "0 < sqrt 20000" by simp
  have "353 / 10 * sqrt 20000 < 5000" using sqrt_20000_upper by linarith
  then have 1: "353 / 10 < 5000 / sqrt 20000" using p by (simp only: pos_less_divide_eq)
  have "5000 < 354 / 10 * sqrt 20000" using sqrt_20000_lower by linarith
  then have 2: "5000 / sqrt 20000 < 354 / 10" using p by (simp only: pos_divide_less_eq)
  from 1 2 show ?thesis ..
qed

lemma Math_round_double_eqI:
  assumes "of_int n - 2 / 5 \<le> v" and "v \<le> of_int n + 2 / 5" and "\<bar>v\<bar> \<le> 2 ^ 40"
  shows "Math_round (roundToDouble v) = n"
proof -
  have "\<bar>roundToDouble v - v\<bar> \<le> \<bar>v\<bar> / 2 ^ 53" by (rule roundToDouble_error)
  also have "\<dots> \<le> 2 ^ 40 / 2 ^ 53" using assms(3) by (simp add: divide_right_mono)
  also have "\<dots> < 1 / 10" by simp
  finally have "\<bar>roundToDouble v - v\<bar> < 1 / 10" .
  with assms(1,2) show ?thesis by (intro Math_round_eqI) linarith+
qed

lemma outside_cut_clipPath:
  "clipPath (cutLine 200 200 300 300) =
     Some [\<lparr>x = 200 + 50 / sqrt 20000, y = 200 - 50 / sqrt 20000\<rparr>,
           \<lparr>x = 300 + 50 / sqrt 20000, y = 300 - 50 / sqrt 20000\<rparr>,
           \<lparr>x = 300 - 50 / sqrt 20000, y = 300 + 50 / sqrt 20000\<rparr>,
           \<lparr>x = 200 - 50 / sqrt 20000, y = 200 + 50 / sqrt 20000\<rparr>]"
  by (simp add: clipPath_def cutLine_def Let_def lineWidth_def scale_def)

lemma outside_rounding:
  "Math_round (roundToDouble (20000 + 5000 / sqrt 20000)) = 20035"
  "Math_round (roundToDouble (20000 - 5000 / sqrt 20000)) = 19965"
  "Math_round (roundToDouble (30000 + 5000 / sqrt 20000)) = 30035"
  "Math_round (roundToDouble (30000 - 5000 / sqrt 20000)) = 29965"
proof -
  define r where "r = 5000 / sqrt 20000"
  have r: "353 / 10 < r" "r < 354 / 10" using outside_offset by (simp_all add: r_def)
  show "Math_round (roundToDouble (20000 + 5000 / sqrt 20000)) = 20035"
    unfolding r_def [symmetric] using r by (intro Math_round_double_eqI) simp_all
  show "Math_round (roundToDouble (20000 - 5000 / sqrt 20000)) = 19965"
    unfolding r_def [symmetric] using r by (intro Math_round_double_eqI) simp_all
  show "Math_round (roundToDouble (30000 + 5000 / sqrt 20000)) = 30035"
    unfolding r_def [symmetric] using r by (intro Math_round_double_eqI) simp_all
  show "Math_round (roundToDouble (30000 - 5000 / sqrt 20000)) = 29965"
    unfolding r_def [symmetric] using r by (intro Math_round_double_eqI) simp_all
qed

lemma outside_cut_clipperAtExecute:
  "clipperAtExecute (canvas 100 100 [cutLine 200 200 300 300]) =
     [([\<lparr>X = 0, Y = 0\<rparr>, \<lparr>X = 10000, Y = 0\<rparr>, \<lparr>X = 10000, Y = 10000\<rparr>, \<lparr>X = 0, Y = 10000\<rparr>],
       ptSubject),
      ([\<lparr>X = 20035, Y = 19965\<rparr>, \<lparr>X = 30035, Y = 29965\<rparr>,
        \<lparr>X = 29965, Y = 30035\<rparr>, \<lparr>X = 19965, Y = 20035\<rparr>], ptClip)]"
proof -
  have "polylines (canvas 100 100 [cutLine 200 200 300 300]) = [cutLine 200 200 300 300]"
    by (simp add: canvas_def)
  then show ?thesis
    unfolding clipperAtExecute_def Let_def scaleUpPath_canvas_100
    by (simp add: outside_cut_clipPath AddPath_def scaleUpPath_def scale_def outside_rounding)
qed

text \<open>
  When the engine answers with the subject ring alone, as it was added, the result is the
  canvas rectangle.
\<close>

lemma outside_cut_result:
  assumes "Execute (clipperAtExecute (canvas 100 100 [cutLine 200 200 300 300])) =
    (True, [[\<lparr>X = 0, Y = 0\<rparr>, \<lparr>X = 10000, Y = 0\<rparr>, \<lparr>X = 10000, Y = 10000\<rparr>, \<lparr>X = 0, Y = 10000\<rparr>]])"
  shows "returned (splitSurface Execute (canvas 100 100 [cutLine 200 200 300 300])) =
    [[\<lparr>x = 0, y = 0\<rparr>, \<lparr>x = 100, y = 0\<rparr>, \<lparr>x = 100, y = 100\<rparr>, \<lparr>x = 0, y = 100\<rparr>]]"
proof -
  have "polylines (canvas 100 100 [cutLine 200 200 300 300]) \<noteq> []"
    by (simp add: canvas_def)
  then show ?thesis
    using assms by (simp add: splitSurface_def Let_def scaleDownPath_def scale_def)
qed

section \<open>The polygons returned\<close>





















end
